theory Spec2Isabelle
  imports Main "HOL-Library.Multiset" "HOL-Library.Log_Nat"
begin

section \<open>The process scheduler of ProcessSchedulerVisualization.jsx\<close>

text \<open>
  The component keeps three pieces of state (\<^verbatim>\<open>processes\<close>, \<^verbatim>\<open>newProcess\<close>,
  \<^verbatim>\<open>algorithm\<close>) and four handlers (\<^verbatim>\<open>addProcess\<close>, \<^verbatim>\<open>removeProcess\<close>,
  \<^verbatim>\<open>simulateFCFS\<close>, \<^verbatim>\<open>runSimulation\<close>). Each handler is embedded as a function on
  the component state; a call of \<^verbatim>\<open>alert\<close> followed by \<^verbatim>\<open>return\<close> is the left
  summand of the handler's result. A handler belongs to a render and reads the state
  of that render; \<^verbatim>\<open>addProcess\<close> also updates the state through a function of the
  pending state, so it takes both.
\<close>

subsection \<open>JavaScript numbers\<close>

text \<open>
  The numbers of the program come from \<^verbatim>\<open>parseInt\<close> and from \<^verbatim>\<open>+\<close>, \<^verbatim>\<open>-\<close> and
  \<^verbatim>\<open>Math.max\<close> on them: they are doubles of integer value, the two infinities, or
  \<^verbatim>\<open>NaN\<close>. \<open>Num a\<close> is the double of value \<open>a\<close>. The sign of zero is left out.
\<close>

datatype jsnum = Num int | PosInf | NegInf | NaN

text \<open>
  The double nearest to an integer \<open>m \<ge> 0\<close>: the 53 leading bits of \<open>m\<close> are kept,
  the rest is rounded to the nearest, a tie to the even significand. Below \<open>2^53\<close>
  nothing is rounded. A magnitude that rounds to \<open>2^1024\<close> or more is infinite.
\<close>

definition rounded :: "int \<Rightarrow> int" where
  "rounded m =
     (let u = 2 ^ nat (bitlen m - 53);
          q = m div u;
          r = m mod u
      in if 2 * r < u \<or> (2 * r = u \<and> even q) then q * u else (q + 1) * u)"

definition double_of_int :: "int \<Rightarrow> jsnum" where
  "double_of_int x =
     (if x < 0
      then (if 2 ^ 1024 \<le> rounded (- x) then NegInf else Num (- rounded (- x)))
      else (if 2 ^ 1024 \<le> rounded x then PosInf else Num (rounded x)))"

text \<open>\<^verbatim>\<open>a + b\<close> and \<^verbatim>\<open>a - b\<close>: the exact result, rounded once.\<close>

fun js_add :: "jsnum \<Rightarrow> jsnum \<Rightarrow> jsnum" where
  "js_add NaN _ = NaN"
| "js_add _ NaN = NaN"
| "js_add (Num a) (Num b) = double_of_int (a + b)"
| "js_add PosInf NegInf = NaN"
| "js_add NegInf PosInf = NaN"
| "js_add PosInf _ = PosInf"
| "js_add _ PosInf = PosInf"
| "js_add NegInf _ = NegInf"
| "js_add _ NegInf = NegInf"

fun js_sub :: "jsnum \<Rightarrow> jsnum \<Rightarrow> jsnum" where
  "js_sub NaN _ = NaN"
| "js_sub _ NaN = NaN"
| "js_sub (Num a) (Num b) = double_of_int (a - b)"
| "js_sub PosInf PosInf = NaN"
| "js_sub NegInf NegInf = NaN"
| "js_sub PosInf _ = PosInf"
| "js_sub _ NegInf = PosInf"
| "js_sub NegInf _ = NegInf"
| "js_sub _ PosInf = NegInf"

text \<open>\<^verbatim>\<open>Math.max(a, b)\<close> is \<^verbatim>\<open>NaN\<close> as soon as one argument is.\<close>

fun js_max :: "jsnum \<Rightarrow> jsnum \<Rightarrow> jsnum" where
  "js_max NaN _ = NaN"
| "js_max _ NaN = NaN"
| "js_max (Num a) (Num b) = Num (max a b)"
| "js_max PosInf _ = PosInf"
| "js_max _ PosInf = PosInf"
| "js_max NegInf y = y"
| "js_max x NegInf = x"

text \<open>The comparisons \<^verbatim>\<open><=\<close> and \<^verbatim>\<open><\<close>: false as soon as one side is \<^verbatim>\<open>NaN\<close>.\<close>

fun js_le :: "jsnum \<Rightarrow> jsnum \<Rightarrow> bool" where
  "js_le NaN _ = False"
| "js_le _ NaN = False"
| "js_le (Num a) (Num b) = (a \<le> b)"
| "js_le NegInf _ = True"
| "js_le _ PosInf = True"
| "js_le _ _ = False"

fun js_lt :: "jsnum \<Rightarrow> jsnum \<Rightarrow> bool" where
  "js_lt NaN _ = False"
| "js_lt _ NaN = False"
| "js_lt (Num a) (Num b) = (a < b)"
| "js_lt _ NegInf = False"
| "js_lt PosInf _ = False"
| "js_lt NegInf _ = True"
| "js_lt _ PosInf = True"



text \<open>\<^verbatim>\<open>Number.isSafeInteger\<close>: an integer of magnitude below \<open>2^53\<close>.\<close>

fun safe_integer :: "jsnum \<Rightarrow> bool" where
  "safe_integer (Num a) = (\<bar>a\<bar> < 2 ^ 53)"
| "safe_integer _ = False"

subsection \<open>Process records\<close>

datatype process_state = New | Ready | Running | Waiting | Terminated

text \<open>
  A process object. The field \<^verbatim>\<open>id\<close> is \<open>pid\<close> here. The four metrics are absent
  (\<open>None\<close>) until a simulation attaches them.
\<close>

record process =
  pid :: string
  arrivalTime :: jsnum
  burstTime :: jsnum
  priority :: jsnum
  state :: process_state
  startTime :: "jsnum option"
  completionTime :: "jsnum option"
  turnAroundTime :: "jsnum option"
  waitingTime :: "jsnum option"

subsection \<open>Array.prototype.sort with a comparator\<close>

text \<open>
  \<^verbatim>\<open>xs.sort(cmp)\<close> is stable: an element moves behind another only when the
  comparator is positive on the pair; a comparator result \<^verbatim>\<open>NaN\<close> counts as \<open>0\<close>.
  For a consistent comparator the result is fixed by the language, and this insertion
  sort computes it. When some but not all arrival times are \<^verbatim>\<open>NaN\<close> the comparator
  of \<^verbatim>\<open>simulateFCFS\<close> is not consistent and the language leaves the order to the
  engine; statements about the order are made for arrival times that are numbers.
\<close>

fun insort_cmp :: "('a \<Rightarrow> 'a \<Rightarrow> jsnum) \<Rightarrow> 'a \<Rightarrow> 'a list \<Rightarrow> 'a list" where
  "insort_cmp cmp x [] = [x]"
| "insort_cmp cmp x (y # ys) =
     (if js_lt (Num 0) (cmp x y) then y # insort_cmp cmp x ys else x # y # ys)"

definition js_sort :: "('a \<Rightarrow> 'a \<Rightarrow> jsnum) \<Rightarrow> 'a list \<Rightarrow> 'a list" where
  "js_sort cmp xs = foldr (insort_cmp cmp) xs []"

subsection \<open>simulateFCFS\<close>

text \<open>The comparator \<^verbatim>\<open>(a, b) => a.arrivalTime - b.arrivalTime\<close>.\<close>

definition byArrival :: "process \<Rightarrow> process \<Rightarrow> jsnum" where
  "byArrival a b = js_sub (arrivalTime a) (arrivalTime b)"

definition sortedProcesses :: "process list \<Rightarrow> process list" where
  "sortedProcesses processes = js_sort byArrival processes"

text \<open>
  The callback of \<^verbatim>\<open>sortedProcesses.map\<close> reads and assigns the variable
  \<^verbatim>\<open>currentTime\<close> of the enclosing call; the walk passes it along. The object
  spread copies every field of \<^verbatim>\<open>process\<close> and the four metrics are set after it.
\<close>

fun fcfs_walk :: "jsnum \<Rightarrow> process list \<Rightarrow> process list" where
  "fcfs_walk currentTime [] = []"
| "fcfs_walk currentTime (process # rest) =
     (let processStart = js_max currentTime (arrivalTime process);
          currentTime' = js_add processStart (burstTime process)
      in process\<lparr>startTime := Some processStart,
                 completionTime := Some currentTime',
                 turnAroundTime := Some (js_sub currentTime' (arrivalTime process)),
                 waitingTime := Some (js_sub processStart (arrivalTime process))\<rparr>
         # fcfs_walk currentTime' rest)"

definition simulateFCFS :: "process list \<Rightarrow> process list" where
  "simulateFCFS processes = fcfs_walk (Num 0) (sortedProcesses processes)"

subsection \<open>parseInt\<close>

text \<open>
  \<^verbatim>\<open>parseInt(s)\<close> with no radix, as the language defines it: leading white space
  is skipped, one sign is read, a prefix \<^verbatim>\<open>0x\<close> or \<^verbatim>\<open>0X\<close> selects radix 16, and
  the longest run of digits of the radix is the value, as a double; with no digit the
  result is \<^verbatim>\<open>NaN\<close>. The language lets an engine take the digits after the 20th for
  zeros before it rounds; the value here is the double nearest to the whole run. A
  text is a list of code units below 256; the white space
  among them is the tab, the line feed, the vertical tab, the form feed, the carriage
  return, the space and the no-break space.
\<close>

definition is_space :: "char \<Rightarrow> bool" where
  "is_space c =
     (c \<in> set [CHR 0x09, CHR 0x0A, CHR 0x0B, CHR 0x0C, CHR 0x0D, CHR 0x20, CHR 0xA0])"

definition digit_val :: "char \<Rightarrow> nat option" where
  "digit_val = map_of
     [(CHR ''0'', 0), (CHR ''1'', 1), (CHR ''2'', 2), (CHR ''3'', 3), (CHR ''4'', 4),
      (CHR ''5'', 5), (CHR ''6'', 6), (CHR ''7'', 7), (CHR ''8'', 8), (CHR ''9'', 9),
      (CHR ''a'', 10), (CHR ''b'', 11), (CHR ''c'', 12), (CHR ''d'', 13), (CHR ''e'', 14),
      (CHR ''f'', 15), (CHR ''A'', 10), (CHR ''B'', 11), (CHR ''C'', 12), (CHR ''D'', 13),
      (CHR ''E'', 14), (CHR ''F'', 15)]"

definition is_digit :: "nat \<Rightarrow> char \<Rightarrow> bool" where
  "is_digit R c = (case digit_val c of None \<Rightarrow> False | Some d \<Rightarrow> d < R)"

definition digit_of :: "char \<Rightarrow> int" where
  "digit_of c = (case digit_val c of None \<Rightarrow> 0 | Some d \<Rightarrow> int d)"

definition digits_value :: "nat \<Rightarrow> string \<Rightarrow> int" where
  "digits_value R Z = foldl (\<lambda>acc c. acc * int R + digit_of c) 0 Z"

definition parseInt :: "string \<Rightarrow> jsnum" where
  "parseInt inputString =
     (let S = dropWhile is_space inputString;
          sign = (if S \<noteq> [] \<and> hd S = CHR ''-'' then - 1 else 1);
          S1 = (if S \<noteq> [] \<and> (hd S = CHR ''+'' \<or> hd S = CHR ''-'') then tl S else S);
          hex = (take 2 S1 = ''0x'' \<or> take 2 S1 = ''0X'');
          R = (if hex then 16 else 10);
          S2 = (if hex then drop 2 S1 else S1);
          Z = takeWhile (is_digit R) S2
      in if Z = [] then NaN else double_of_int (sign * digits_value R Z))"

subsection \<open>The component state\<close>

text \<open>The form object \<^verbatim>\<open>newProcess\<close>: four strings, as the inputs deliver them.\<close>

record process_form =
  np_id :: string
  np_arrivalTime :: string
  np_burstTime :: string
  np_priority :: string

definition emptyForm :: process_form where
  "emptyForm = \<lparr>np_id = '''', np_arrivalTime = '''', np_burstTime = '''', np_priority = ''''\<rparr>"

record component =
  processes :: "process list"
  newProcess :: process_form
  algorithm :: string

text \<open>The values of \<^verbatim>\<open>SCHEDULING_ALGORITHMS\<close>.\<close>

definition FCFS :: string where "FCFS = ''First-Come, First-Served (FCFS)''"
definition RR :: string where "RR = ''Round Robin (RR)''"
definition SJF :: string where "SJF = ''Shortest Job First (SJF)''"
definition PRIORITY :: string where "PRIORITY = ''Priority Scheduling''"

definition initial :: component where
  "initial = \<lparr>processes = [], newProcess = emptyForm, algorithm = FCFS\<rparr>"

text \<open>
  A handler that calls \<^verbatim>\<open>alert(msg)\<close> and returns has set no state: its result is
  \<open>Inl (Alert msg)\<close>. Otherwise its result is \<open>Inr\<close> of the state after it.
\<close>

datatype alert = Alert string

definition after :: "(component \<Rightarrow> alert + component) \<Rightarrow> component \<Rightarrow> component" where
  "after handler s = (case handler s of Inl a \<Rightarrow> s | Inr s' \<Rightarrow> s')"

subsection \<open>addProcess and removeProcess\<close>

text \<open>A string is falsy exactly when it is empty.\<close>

definition processToAdd :: "process_form \<Rightarrow> process" where
  "processToAdd np =
     \<lparr>pid = np_id np,
      arrivalTime = parseInt (np_arrivalTime np),
      burstTime = parseInt (np_burstTime np),
      priority = (if np_priority np \<noteq> [] then parseInt (np_priority np) else Num 0),
      state = New,
      startTime = None, completionTime = None, turnAroundTime = None, waitingTime = None\<rparr>"

text \<open>
  \<^verbatim>\<open>addProcess\<close> is a closure of a render: the two tests read \<^verbatim>\<open>newProcess\<close> and
  \<^verbatim>\<open>processes\<close> of that render \<open>r\<close>, while \<^verbatim>\<open>setProcesses(prev => [...prev, p])\<close>
  appends to the pending state \<open>s\<close>, and \<^verbatim>\<open>setNewProcess\<close> sets the empty form.
  When the handler runs in the render of the current state, \<open>r\<close> and \<open>s\<close> are the
  same.
\<close>

definition addProcess :: "component \<Rightarrow> component \<Rightarrow> alert + component" where
  "addProcess r s =
     (if np_id (newProcess r) = [] \<or> np_arrivalTime (newProcess r) = []
         \<or> np_burstTime (newProcess r) = []
      then Inl (Alert ''Please fill in all required fields'')
      else if list_ex (\<lambda>p. pid p = pid (processToAdd (newProcess r))) (processes r)
      then Inl (Alert ''A process with this ID already exists'')
      else Inr (s\<lparr>processes := processes s @ [processToAdd (newProcess r)],
                  newProcess := emptyForm\<rparr>))"

definition removeProcess :: "string \<Rightarrow> component \<Rightarrow> component" where
  "removeProcess i s = s\<lparr>processes := filter (\<lambda>process. pid process \<noteq> i) (processes s)\<rparr>"

text \<open>
  One add operation of the registry, in the render of the current state: the form
  holds \<open>f\<close> and the Add button is pressed. A sequence of add operations applies
  them from left to right, each in the render of the state that the one before it
  left.
\<close>

definition submit :: "component \<Rightarrow> process_form \<Rightarrow> component" where
  "submit s f = after (addProcess (s\<lparr>newProcess := f\<rparr>)) (s\<lparr>newProcess := f\<rparr>)"

definition adds :: "process_form list \<Rightarrow> component \<Rightarrow> component" where
  "adds fs s = foldl submit s fs"

subsection \<open>runSimulation\<close>

text \<open>
  The \<^verbatim>\<open>switch\<close> has one case, the FCFS string; every other selector value takes
  the \<^verbatim>\<open>default\<close> branch. The Run button is disabled while the list is empty.
\<close>

definition runSimulation :: "component \<Rightarrow> alert + component" where
  "runSimulation s =
     (if algorithm s = FCFS
      then Inr (s\<lparr>processes := simulateFCFS (processes s)\<rparr>)
      else Inl (Alert ''Selected algorithm not implemented yet''))"

definition runDisabled :: "component \<Rightarrow> bool" where
  "runDisabled s = (length (processes s) = 0)"

subsection \<open>The same run on an object store\<close>

text \<open>
  Process objects are shared by reference between the state and the handlers. To
  state that a run writes to no object that existed before it, the run is given a
  second time on a store: a list of objects, a reference being an index, and
  allocation being an append. \<^verbatim>\<open>[...processes]\<close> copies the array of references,
  \<^verbatim>\<open>sort\<close> orders the copy, and each object spread allocates a new object.
\<close>

type_synonym store = "process list"

fun fcfs_walk_store :: "jsnum \<Rightarrow> store \<Rightarrow> nat list \<Rightarrow> store \<times> nat list" where
  "fcfs_walk_store currentTime h [] = (h, [])"
| "fcfs_walk_store currentTime h (r # rest) =
     (let process = h ! r;
          processStart = js_max currentTime (arrivalTime process);
          currentTime' = js_add processStart (burstTime process);
          obj = process\<lparr>startTime := Some processStart,
                        completionTime := Some currentTime',
                        turnAroundTime := Some (js_sub currentTime' (arrivalTime process)),
                        waitingTime := Some (js_sub processStart (arrivalTime process))\<rparr>;
          res = fcfs_walk_store currentTime' (h @ [obj]) rest
      in (fst res, length h # snd res))"

definition simulateFCFS_store :: "store \<Rightarrow> nat list \<Rightarrow> store \<times> nat list" where
  "simulateFCFS_store h arr =
     fcfs_walk_store (Num 0) h (js_sort (\<lambda>a b. byArrival (h ! a) (h ! b)) arr)"

text \<open>A store is well formed for an array when every reference of the array is allocated.\<close>

definition allocated :: "store \<Rightarrow> nat list \<Rightarrow> bool" where
  "allocated h arr = list_all (\<lambda>r. r < length h) arr"

subsection \<open>Notions of the specification\<close>



text \<open>A valid scheduling input: arrival time at least 0 and burst time above 0.\<close>

definition valid_process :: "process \<Rightarrow> bool" where
  "valid_process p = (js_le (Num 0) (arrivalTime p) \<and> js_lt (Num 0) (burstTime p))"

text \<open>The fields of a process that are not metrics.\<close>

definition scheduling_input ::
  "process \<Rightarrow> string \<times> jsnum \<times> jsnum \<times> jsnum \<times> process_state" where
  "scheduling_input p = (pid p, arrivalTime p, burstTime p, priority p, state p)"

text \<open>The required fields of the form are filled in.\<close>

definition required_fields :: "process_form \<Rightarrow> bool" where
  "required_fields f = (np_id f \<noteq> [] \<and> np_arrivalTime f \<noteq> [] \<and> np_burstTime f \<noteq> [])"

text \<open>The record that \<^verbatim>\<open>addProcess\<close> stores for an id and two integers, and the
  processes of the scenarios of the specification.\<close>

definition proc :: "string \<Rightarrow> int \<Rightarrow> int \<Rightarrow> process" where
  "proc i a b =
     \<lparr>pid = i, arrivalTime = Num a, burstTime = Num b, priority = Num 0, state = New,
      startTime = None, completionTime = None, turnAroundTime = None, waitingTime = None\<rparr>"

definition P1 :: process where "P1 = proc ''P1'' 0 5"
definition P2 :: process where "P2 = proc ''P2'' 1 3"
definition P3 :: process where "P3 = proc ''P3'' 2 8"


definition bigProcess :: process where
  "bigProcess = proc ''P1'' 9007199254740992 1"

definition bigDone :: process where
  "bigDone = bigProcess\<lparr>startTime := Some (Num 9007199254740992),
                        completionTime := Some (Num 9007199254740992),
                        turnAroundTime := Some (Num 0),
                        waitingTime := Some (Num 0)\<rparr>"

definition scenarioBig :: component where
  "scenarioBig = \<lparr>processes = [bigProcess], newProcess = emptyForm, algorithm = FCFS\<rparr>"

text \<open>Scenario 1 of the specification: the three processes, FCFS selected.\<close>

definition scenario1 :: component where
  "scenario1 = \<lparr>processes = [P1, P2, P3], newProcess = emptyForm, algorithm = FCFS\<rparr>"

text \<open>Forms as a user fills them in: two processes of scenario 1, a second form with
  the id of the first, the same with no arrival time, a form with a negative arrival
  time and a burst time of 0, and the form of the process that arrives at \<open>2^53\<close>.\<close>

definition formP1 :: process_form where
  "formP1 = \<lparr>np_id = ''P1'', np_arrivalTime = ''0'', np_burstTime = ''5'', np_priority = ''''\<rparr>"

definition formP1again :: process_form where
  "formP1again = \<lparr>np_id = ''P1'', np_arrivalTime = ''7'', np_burstTime = ''2'', np_priority = ''3''\<rparr>"

definition formP2 :: process_form where
  "formP2 = \<lparr>np_id = ''P2'', np_arrivalTime = ''1'', np_burstTime = ''3'', np_priority = ''''\<rparr>"

definition formP1blank :: process_form where
  "formP1blank = \<lparr>np_id = ''P1'', np_arrivalTime = '''', np_burstTime = ''2'', np_priority = ''''\<rparr>"

definition formBig :: process_form where
  "formBig = \<lparr>np_id = ''P1'', np_arrivalTime = ''9007199254740992'', np_burstTime = ''1'',
               np_priority = ''''\<rparr>"

text \<open>The render in which the form holds \<open>P1\<close> and the registry is empty, and the
  states with \<open>P1\<close> once and twice in the registry.\<close>

definition renderP1 :: component where
  "renderP1 = \<lparr>processes = [], newProcess = formP1, algorithm = FCFS\<rparr>"

definition onceP1 :: component where
  "onceP1 = \<lparr>processes = [P1], newProcess = emptyForm, algorithm = FCFS\<rparr>"

definition twiceP1 :: component where
  "twiceP1 = \<lparr>processes = [P1, P1], newProcess = emptyForm, algorithm = FCFS\<rparr>"

definition formNegative :: process_form where
  "formNegative = \<lparr>np_id = ''P1'', np_arrivalTime = ''-5'', np_burstTime = ''0'', np_priority = ''''\<rparr>"

text \<open>Scenario 3 (Round Robin selected, two processes), a selector value that is none
  of the four, and an empty registry with Round Robin selected.\<close>

definition scenario3 :: component where
  "scenario3 = \<lparr>processes = [P1, P2], newProcess = emptyForm, algorithm = RR\<rparr>"

definition unknownSelector :: component where
  "unknownSelector = \<lparr>processes = [P1, P2], newProcess = emptyForm, algorithm = ''Lottery''\<rparr>"

definition emptyRR :: component where
  "emptyRR = \<lparr>processes = [], newProcess = emptyForm, algorithm = RR\<rparr>"


section \<open>Auxiliary facts\<close>

subsection \<open>Rounding\<close>

lemma rounded_exact: "0 \<le> m \<Longrightarrow> m < 2 ^ 53 \<Longrightarrow> rounded m = m"
proof -
  assume "0 \<le> m" "m < 2 ^ 53"
  then have "nat (bitlen m - 53) = 0"
    using bitlen_le_iff_power [of m 53] by simp
  then show ?thesis by (simp add: rounded_def)
qed

text \<open>Below \<open>2^53\<close> in magnitude every integer is a double.\<close>

lemma double_of_int_exact:
  assumes "\<bar>x\<bar> < 2 ^ 53"
  shows "double_of_int x = Num x"
proof -
  have big: "(2::int) ^ 53 < 2 ^ 1024" by simp
  show ?thesis
  proof (cases "x < 0")
    case True
    with assms have m: "0 \<le> - x" "- x < 2 ^ 53" by linarith+
    then have r: "rounded (- x) = - x" by (rule rounded_exact)
    from m(2) big have "\<not> (2::int) ^ 1024 \<le> - x" by linarith
    with True r show ?thesis by (simp add: double_of_int_def)
  next
    case False
    with assms have m: "0 \<le> x" "x < 2 ^ 53" by linarith+
    then have r: "rounded x = x" by (rule rounded_exact)
    from m(2) big have "\<not> (2::int) ^ 1024 \<le> x" by linarith
    with False r show ?thesis by (simp add: double_of_int_def)
  qed
qed

lemma unit_le: "0 < m \<Longrightarrow> (2::int) ^ nat (bitlen m - 53) \<le> m"
proof -
  assume m: "0 < m"
  then have b: "(2::int) ^ nat (bitlen m - 1) \<le> m"
    using bitlen_bounds by blast
  have "nat (bitlen m - 53) \<le> nat (bitlen m - 1)" by simp
  then have "(2::int) ^ nat (bitlen m - 53) \<le> 2 ^ nat (bitlen m - 1)"
    by (rule power_increasing) simp
  with b show ?thesis by linarith
qed

lemma rounded_lower:
  "0 \<le> m \<Longrightarrow> m div 2 ^ nat (bitlen m - 53) * 2 ^ nat (bitlen m - 53) \<le> rounded m"
  by (simp add: rounded_def Let_def)

lemma rounded_pos: "0 < m \<Longrightarrow> 0 < rounded m"
proof -
  assume m: "0 < m"
  let ?u = "(2::int) ^ nat (bitlen m - 53)"
  have u: "0 < ?u" by simp
  from unit_le [OF m] have "0 < m div ?u"
    using pos_imp_zdiv_pos_iff [of ?u m] u by blast
  with u have "0 < m div ?u * ?u" by simp
  with rounded_lower [of m] m show ?thesis by linarith
qed

lemma rounded_zero: "rounded 0 = 0"
  by (simp add: rounded_def)

lemma rounded_large: "2 ^ 53 \<le> m \<Longrightarrow> 2 ^ 53 \<le> rounded m"
proof -
  assume m: "(2::int) ^ 53 \<le> m"
  have "(0::int) < 2 ^ 53" by simp
  with m have pos: "0 < m" by linarith
  let ?b = "bitlen m"
  have "\<not> ?b \<le> 53"
    using m bitlen_le_iff_power [of m 53] by simp
  then have b: "54 \<le> ?b" by simp
  let ?e = "nat (?b - 53)"
  let ?u = "(2::int) ^ ?e"
  have u: "0 < ?u" by simp
  have split: "nat (?b - 1) = 52 + ?e" using b by simp
  from bitlen_bounds [OF pos] have "(2::int) ^ nat (?b - 1) \<le> m" by blast
  then have "(2::int) ^ 52 * ?u \<le> m" by (simp add: split power_add)
  from zdiv_mono1 [OF this u] have "(2::int) ^ 52 \<le> m div ?u"
    by simp
  then have "(2::int) ^ 52 * ?u \<le> m div ?u * ?u"
    using u by simp
  moreover have "(2::int) ^ 53 \<le> 2 ^ 52 * ?u"
  proof -
    have "1 \<le> ?e" using b by simp
    then have "(2::int) ^ 1 \<le> ?u" by (rule power_increasing) simp
    then show ?thesis by simp
  qed
  ultimately show ?thesis
    using rounded_lower [of m] pos by linarith
qed

lemma double_of_int_large:
  assumes "double_of_int x = Num y" and "2 ^ 53 \<le> \<bar>x\<bar>"
  shows "2 ^ 53 \<le> \<bar>y\<bar>"
proof (cases "x < 0")
  case True
  with assms(2) have "2 ^ 53 \<le> - x" by linarith
  then have "2 ^ 53 \<le> rounded (- x)" by (rule rounded_large)
  moreover from assms(1) True have "y = - rounded (- x)"
    by (simp add: double_of_int_def split: if_splits)
  ultimately show ?thesis by linarith
next
  case False
  with assms(2) have "2 ^ 53 \<le> x" by linarith
  then have "2 ^ 53 \<le> rounded x" by (rule rounded_large)
  moreover from assms(1) False have "y = rounded x"
    by (simp add: double_of_int_def split: if_splits)
  ultimately show ?thesis by linarith
qed

text \<open>A result below \<open>2^53\<close> in magnitude was not rounded.\<close>

lemma double_of_int_safe:
  assumes "double_of_int x = Num y" and "\<bar>y\<bar> < 2 ^ 53"
  shows "y = x"
proof (cases "\<bar>x\<bar> < 2 ^ 53")
  case True
  with assms(1) show ?thesis by (simp add: double_of_int_exact)
next
  case False
  then have "2 ^ 53 \<le> \<bar>x\<bar>" by linarith
  from double_of_int_large [OF assms(1) this] assms(2) show ?thesis by linarith
qed

text \<open>Rounding keeps the sign.\<close>

lemma double_of_int_positive: "js_lt (Num 0) (double_of_int x) \<longleftrightarrow> 0 < x"
proof -
  consider (neg) "x < 0" | (zero) "x = 0" | (pos) "0 < x" by linarith
  then show ?thesis
  proof cases
    case neg
    then have "0 < rounded (- x)" by (simp add: rounded_pos)
    with neg show ?thesis by (simp add: double_of_int_def)
  next
    case zero
    then show ?thesis by (simp add: double_of_int_def rounded_zero)
  next
    case pos
    then have "0 < rounded x" by (rule rounded_pos)
    with pos show ?thesis by (simp add: double_of_int_def)
  qed
qed

text \<open>The two doubles at \<open>2^53\<close>: the integer itself, and its successor rounded down.\<close>

lemma double_of_int_two_53: "double_of_int 9007199254740992 = Num 9007199254740992"
  by code_simp

lemma double_of_int_two_53_plus_1: "double_of_int 9007199254740993 = Num 9007199254740992"
  by code_simp

subsection \<open>Arithmetic on numbers\<close>


lemma safe_integer_conv: "safe_integer x \<longleftrightarrow> (\<exists>n. x = Num n \<and> \<bar>n\<bar> < 2 ^ 53)"
  by (cases x) simp_all

lemma js_add_exact: "\<bar>a + b\<bar> < 2 ^ 53 \<Longrightarrow> js_add (Num a) (Num b) = Num (a + b)"
  by (simp add: double_of_int_exact)

lemma js_sub_exact: "\<bar>a - b\<bar> < 2 ^ 53 \<Longrightarrow> js_sub (Num a) (Num b) = Num (a - b)"
  by (simp add: double_of_int_exact)

lemma js_add_NumD:
  "js_add x y = Num c \<Longrightarrow> \<exists>a b. x = Num a \<and> y = Num b \<and> double_of_int (a + b) = Num c"
  by (cases x; cases y) simp_all

lemma js_sub_NumD:
  "js_sub x y = Num c \<Longrightarrow> \<exists>a b. x = Num a \<and> y = Num b \<and> double_of_int (a - b) = Num c"
  by (cases x; cases y) simp_all


text \<open>When the three metrics are safe integers nothing was rounded on the way.\<close>

lemma metrics_exact:
  assumes "safe_integer (js_add st b)"
    and "safe_integer (js_sub (js_add st b) a)"
    and "safe_integer (js_sub st a)"
  shows "\<exists>s c t w a' b'.
           st = Num s \<and> js_add st b = Num c \<and> js_sub (js_add st b) a = Num t \<and>
           js_sub st a = Num w \<and> a = Num a' \<and> b = Num b' \<and>
           c = s + b' \<and> t = c - a' \<and> w = t - b' \<and> w = s - a'"
proof -
  from assms(1) obtain c where c: "js_add st b = Num c" "\<bar>c\<bar> < 2 ^ 53"
    by (auto simp: safe_integer_conv)
  from js_add_NumD [OF c(1)] obtain s b' where
    sb: "st = Num s" "b = Num b'" "double_of_int (s + b') = Num c"
    by blast
  from double_of_int_safe [OF sb(3) c(2)] have ce: "c = s + b'" .
  from assms(2) c(1) obtain t where t: "js_sub (Num c) a = Num t" "\<bar>t\<bar> < 2 ^ 53"
    by (auto simp: safe_integer_conv)
  from js_sub_NumD [OF t(1)] obtain a' where
    a: "a = Num a'" "double_of_int (c - a') = Num t"
    by auto
  from double_of_int_safe [OF a(2) t(2)] have te: "t = c - a'" .
  from assms(3) sb(1) a(1) obtain w where
    w: "js_sub (Num s) (Num a') = Num w" "\<bar>w\<bar> < 2 ^ 53"
    by (auto simp: safe_integer_conv)
  then have "double_of_int (s - a') = Num w" by simp
  from double_of_int_safe [OF this w(2)] have we: "w = s - a'" .
  from ce te we have "w = t - b'" by simp
  with sb a c(1) t(1) w(1) ce te we show ?thesis by simp
qed


subsection \<open>Sorting\<close>

lemma mset_insort_cmp: "mset (insort_cmp cmp x ys) = add_mset x (mset ys)"
  by (induction ys) simp_all

lemma mset_js_sort: "mset (js_sort cmp xs) = mset xs"
  unfolding js_sort_def by (induction xs) (simp_all add: mset_insort_cmp)

lemma mset_sortedProcesses: "mset (sortedProcesses ps) = mset ps"
  by (simp add: sortedProcesses_def mset_js_sort)

lemma set_sortedProcesses: "set (sortedProcesses ps) = set ps"
  using mset_sortedProcesses [of ps] by (metis set_mset_mset)

lemma length_sortedProcesses: "length (sortedProcesses ps) = length ps"
  using mset_sortedProcesses [of ps] by (metis size_mset)




subsection \<open>The walk\<close>

lemma length_fcfs_walk: "length (fcfs_walk c xs) = length xs"
  by (induction xs arbitrary: c) (simp_all add: Let_def)




lemma fcfs_walk_frame:
  "i < length xs \<Longrightarrow>
   \<exists>st ct ta wt. fcfs_walk c xs ! i =
      (xs ! i)\<lparr>startTime := st, completionTime := ct, turnAroundTime := ta, waitingTime := wt\<rparr>"
proof (induction xs arbitrary: c i)
  case Nil
  then show ?case by simp
next
  case (Cons x xs)
  show ?case
  proof (cases i)
    case 0
    then show ?thesis by (simp add: Let_def) blast
  next
    case (Suc j)
    with Cons.prems have "j < length xs" by simp
    from Cons.IH [OF this] Suc show ?thesis by (simp add: Let_def)
  qed
qed

lemma map_input_fcfs_walk:
  "map scheduling_input (fcfs_walk c xs) = map scheduling_input xs"
  by (induction xs arbitrary: c) (simp_all add: Let_def scheduling_input_def)


lemma map_pid_fcfs_walk: "map pid (fcfs_walk c xs) = map pid xs"
  by (induction xs arbitrary: c) (simp_all add: Let_def)


text \<open>Every process of the output is a process of the input with the four metrics
  computed from some value of the clock.\<close>

lemma fcfs_walk_member:
  "q \<in> set (fcfs_walk c xs) \<Longrightarrow>
   \<exists>x cur. x \<in> set xs \<and>
     q = x\<lparr>startTime := Some (js_max cur (arrivalTime x)),
            completionTime := Some (js_add (js_max cur (arrivalTime x)) (burstTime x)),
            turnAroundTime :=
              Some (js_sub (js_add (js_max cur (arrivalTime x)) (burstTime x)) (arrivalTime x)),
            waitingTime := Some (js_sub (js_max cur (arrivalTime x)) (arrivalTime x))\<rparr>"
proof (induction xs arbitrary: c)
  case Nil
  then show ?case by simp
next
  case (Cons x xs)
  from Cons.prems consider
    (head) "q = x\<lparr>startTime := Some (js_max c (arrivalTime x)),
            completionTime := Some (js_add (js_max c (arrivalTime x)) (burstTime x)),
            turnAroundTime :=
              Some (js_sub (js_add (js_max c (arrivalTime x)) (burstTime x)) (arrivalTime x)),
            waitingTime := Some (js_sub (js_max c (arrivalTime x)) (arrivalTime x))\<rparr>"
    | (later) "q \<in> set (fcfs_walk (js_add (js_max c (arrivalTime x)) (burstTime x)) xs)"
    by (auto simp: Let_def)
  then show ?case
  proof cases
    case head
    then show ?thesis by (intro exI [of _ x] exI [of _ c]) simp
  next
    case later
    from Cons.IH [OF later] show ?thesis by auto
  qed
qed

subsection \<open>Runs\<close>

lemma runSimulation_Inr:
  "runSimulation s = Inr s' \<Longrightarrow> processes s' = simulateFCFS (processes s)"
  by (auto simp: runSimulation_def split: if_splits)

lemma valid_sortedProcesses:
  "list_all valid_process (sortedProcesses ps) = list_all valid_process ps"
  by (simp add: list_all_iff set_sortedProcesses)

lemma sorted_scenario1: "sortedProcesses [P1, P2, P3] = [P1, P2, P3]"
  by (simp add: sortedProcesses_def js_sort_def byArrival_def P1_def P2_def P3_def proc_def
      double_of_int_positive)

lemma run_scenario1:
  "runSimulation scenario1 = Inr (scenario1\<lparr>processes := fcfs_walk (Num 0) [P1, P2, P3]\<rparr>)"
  by (simp add: runSimulation_def scenario1_def simulateFCFS_def sorted_scenario1)

lemma walk_scenario1:
  "fcfs_walk (Num 0) [P1, P2, P3] =
    [P1\<lparr>startTime := Some (Num 0), completionTime := Some (Num 5),
        turnAroundTime := Some (Num 5), waitingTime := Some (Num 0)\<rparr>,
     P2\<lparr>startTime := Some (Num 5), completionTime := Some (Num 8),
        turnAroundTime := Some (Num 7), waitingTime := Some (Num 4)\<rparr>,
     P3\<lparr>startTime := Some (Num 8), completionTime := Some (Num 16),
        turnAroundTime := Some (Num 14), waitingTime := Some (Num 6)\<rparr>]"
  by (simp add: Let_def P1_def P2_def P3_def proc_def double_of_int_exact)

subsection \<open>The registry\<close>

lemma pid_processToAdd: "pid (processToAdd f) = np_id f"
  by (simp add: processToAdd_def)

lemma addProcess_form:
  "addProcess (s\<lparr>newProcess := f\<rparr>) (s\<lparr>newProcess := f\<rparr>) =
     (if \<not> required_fields f then Inl (Alert ''Please fill in all required fields'')
      else if np_id f \<in> set (map pid (processes s))
      then Inl (Alert ''A process with this ID already exists'')
      else Inr (s\<lparr>processes := processes s @ [processToAdd f], newProcess := emptyForm\<rparr>))"
  by (auto simp: addProcess_def required_fields_def list_ex_iff pid_processToAdd image_iff)

lemma processes_submit:
  "processes (submit s f) =
     (if required_fields f \<and> np_id f \<notin> set (map pid (processes s))
      then processes s @ [processToAdd f] else processes s)"
  by (simp add: submit_def after_def addProcess_form)

lemma distinct_submit:
  "distinct (map pid (processes s)) \<Longrightarrow> distinct (map pid (processes (submit s f)))"
  by (simp add: processes_submit pid_processToAdd)

lemma adds_Cons: "adds (f # fs) s = adds fs (submit s f)"
  by (simp add: adds_def)

lemma adds_Nil: "adds [] s = s"
  by (simp add: adds_def)

lemma distinct_adds:
  "distinct (map pid (processes s)) \<Longrightarrow> distinct (map pid (processes (adds fs s)))"
  by (induction fs arbitrary: s) (simp_all add: adds_Nil adds_Cons distinct_submit)

lemma adds_origin:
  "p \<in> set (processes (adds fs s)) \<Longrightarrow>
   p \<in> set (processes s) \<or> (\<exists>f \<in> set fs. required_fields f \<and> p = processToAdd f)"
proof (induction fs arbitrary: s)
  case Nil
  then show ?case by (simp add: adds_Nil)
next
  case (Cons f fs)
  from Cons.prems have "p \<in> set (processes (adds fs (submit s f)))"
    by (simp add: adds_Cons)
  from Cons.IH [OF this] show ?case
    by (auto simp: processes_submit split: if_splits)
qed

lemma processToAdd_formP1: "processToAdd formP1 = P1"
  by (simp add: processToAdd_def formP1_def P1_def proc_def parseInt_def is_space_def
      is_digit_def digit_val_def digits_value_def digit_of_def double_of_int_exact)

lemma processToAdd_formP2: "processToAdd formP2 = P2"
  by (simp add: processToAdd_def formP2_def P2_def proc_def parseInt_def is_space_def
      is_digit_def digit_val_def digits_value_def digit_of_def double_of_int_exact)

lemma processes_adds_P1: "processes (adds [formP1] initial) = [P1]"
  by (simp add: adds_Cons adds_Nil processes_submit processToAdd_formP1)
     (simp add: initial_def required_fields_def formP1_def)

lemma processToAdd_formNegative: "processToAdd formNegative = proc ''P1'' (- 5) 0"
  by (simp add: processToAdd_def formNegative_def proc_def parseInt_def is_space_def
      is_digit_def digit_val_def digits_value_def digit_of_def double_of_int_exact)

lemma processToAdd_formBig: "processToAdd formBig = bigProcess"
  by (simp add: processToAdd_def formBig_def bigProcess_def proc_def parseInt_def is_space_def
      is_digit_def digit_val_def digits_value_def digit_of_def double_of_int_exact
      double_of_int_two_53)

lemma adds_formBig: "adds [formBig] initial = scenarioBig"
  by (simp add: adds_Cons adds_Nil submit_def after_def addProcess_form processToAdd_formBig)
     (simp add: initial_def scenarioBig_def required_fields_def formBig_def)

text \<open>The run on the process that arrives at \<open>2^53\<close>: the completion time is the
  start time, \<open>2^53 + 1\<close> being no double.\<close>

lemma simulateFCFS_big: "simulateFCFS [bigProcess] = [bigDone]"
  by (simp add: simulateFCFS_def sortedProcesses_def js_sort_def Let_def bigProcess_def
      bigDone_def proc_def double_of_int_exact double_of_int_two_53_plus_1)

lemma run_scenarioBig:
  "runSimulation scenarioBig = Inr (scenarioBig\<lparr>processes := [bigDone]\<rparr>)"
  by (simp add: runSimulation_def scenarioBig_def simulateFCFS_big)

text \<open>Two adds from the render in which the registry is empty and the form holds \<open>P1\<close>.\<close>

lemma addProcess_renderP1_once: "addProcess renderP1 renderP1 = Inr onceP1"
  by (simp add: addProcess_def renderP1_def onceP1_def processToAdd_formP1)
     (simp add: formP1_def)

lemma addProcess_renderP1_twice: "addProcess renderP1 onceP1 = Inr twiceP1"
  by (simp add: addProcess_def renderP1_def onceP1_def twiceP1_def processToAdd_formP1)
     (simp add: formP1_def)

lemma processes_adds_formNegative:
  "processes (adds [formNegative] initial) = [proc ''P1'' (- 5) 0]"
  by (simp add: adds_Cons adds_Nil processes_submit processToAdd_formNegative)
     (simp add: initial_def required_fields_def formNegative_def)

lemma selectors_differ: "RR \<noteq> FCFS" "SJF \<noteq> FCFS" "PRIORITY \<noteq> FCFS"
  by (simp_all add: RR_def SJF_def PRIORITY_def FCFS_def)

lemma runSimulation_other:
  "algorithm s \<noteq> FCFS \<Longrightarrow>
   runSimulation s = Inl (Alert ''Selected algorithm not implemented yet'')
   \<and> after runSimulation s = s"
  by (simp add: runSimulation_def after_def)

lemma runSimulation_FCFS:
  "algorithm s = FCFS \<Longrightarrow>
   runSimulation s = Inr (s\<lparr>processes := simulateFCFS (processes s)\<rparr>)"
  by (simp add: runSimulation_def)

lemma simulateFCFS_scenario1:
  "simulateFCFS [P1, P2, P3] =
    [P1\<lparr>startTime := Some (Num 0), completionTime := Some (Num 5),
        turnAroundTime := Some (Num 5), waitingTime := Some (Num 0)\<rparr>,
     P2\<lparr>startTime := Some (Num 5), completionTime := Some (Num 8),
        turnAroundTime := Some (Num 7), waitingTime := Some (Num 4)\<rparr>,
     P3\<lparr>startTime := Some (Num 8), completionTime := Some (Num 16),
        turnAroundTime := Some (Num 14), waitingTime := Some (Num 6)\<rparr>]"
  by (simp only: simulateFCFS_def sorted_scenario1 walk_scenario1)

lemma simulateFCFS_Nil: "simulateFCFS [] = []"
  by (simp add: simulateFCFS_def sortedProcesses_def js_sort_def)

subsection \<open>Order and repetition of a run\<close>



lemma map_input_simulateFCFS:
  "map scheduling_input (simulateFCFS ps) = map scheduling_input (sortedProcesses ps)"
  by (simp add: simulateFCFS_def map_input_fcfs_walk)




lemma sorted_reversed: "sortedProcesses [P3, P2, P1] = [P1, P2, P3]"
  by (simp add: sortedProcesses_def js_sort_def byArrival_def P1_def P2_def P3_def proc_def
      double_of_int_positive)


subsection \<open>The run on the store\<close>

lemma map_insort_cmp:
  "map f (insort_cmp (\<lambda>a b. cmp (f a) (f b)) x ys) = insort_cmp cmp (f x) (map f ys)"
  by (induction ys) simp_all

lemma map_js_sort:
  "map f (js_sort (\<lambda>a b. cmp (f a) (f b)) xs) = js_sort cmp (map f xs)"
  unfolding js_sort_def by (induction xs) (simp_all add: map_insort_cmp)

lemma allocated_js_sort: "allocated h (js_sort cmp arr) = allocated h arr"
proof -
  have "set (js_sort cmp arr) = set arr"
    using mset_js_sort [of cmp arr] by (metis set_mset_mset)
  then show ?thesis by (simp add: allocated_def list_all_iff)
qed

lemma map_nth_append_allocated:
  "allocated h rs \<Longrightarrow> map ((!) (h @ ys)) rs = map ((!) h) rs"
  by (simp add: allocated_def list_all_iff nth_append)

lemma fcfs_walk_store_appends:
  "allocated h rs \<Longrightarrow>
   fcfs_walk_store c h rs
     = (h @ fcfs_walk c (map ((!) h) rs), [length h ..< length h + length rs])"
proof (induction rs arbitrary: c h)
  case Nil
  then show ?case by simp
next
  case (Cons r rs)
  from Cons.prems have r: "r < length h" and rs: "allocated h rs"
    by (simp_all add: allocated_def)
  have rs': "allocated (h @ [obj]) rs" for obj
    using rs by (auto simp: allocated_def list_all_iff)
  show ?case
    by (simp add: Let_def Cons.IH [OF rs'] map_nth_append_allocated [OF rs] upt_conv_Cons
        del: upt_Suc)
qed

lemma simulateFCFS_store_appends:
  assumes "allocated h arr"
  shows "simulateFCFS_store h arr
     = (h @ simulateFCFS (map ((!) h) arr), [length h ..< length h + length arr])"
proof -
  let ?srt = "js_sort (\<lambda>a b. byArrival (h ! a) (h ! b)) arr"
  have al: "allocated h ?srt"
    using assms by (simp add: allocated_js_sort)
  have len: "length ?srt = length arr"
    using mset_js_sort [of "\<lambda>a b. byArrival (h ! a) (h ! b)" arr] by (metis size_mset)
  have "map ((!) h) ?srt = sortedProcesses (map ((!) h) arr)"
    by (simp add: sortedProcesses_def map_js_sort)
  with fcfs_walk_store_appends [OF al, of "Num 0"] len show ?thesis
    by (simp add: simulateFCFS_store_def simulateFCFS_def)
qed

lemma map_nth_fresh: "map ((!) (h @ ys)) [length h ..< length h + length ys] = ys"
  by (rule nth_equalityI) (simp_all add: nth_append)

subsection \<open>The scenarios of the claims\<close>





section \<open>The claims\<close>

subsection \<open>C1: FCFS sorts by arrival time, then walks the sorted order\<close>




subsection \<open>C2: the metrics attached by a run\<close>

text \<open>
  Claim C2 says that the waiting time is the turnaround time minus the burst time.
  The form with arrival time \<^verbatim>\<open>9007199254740992\<close> and burst time \<^verbatim>\<open>1\<close> is added,
  and the run gives it the turnaround time 0 and the waiting time 0, which is not
  \<open>0 - 1\<close>.
\<close>

theorem rounded_waiting_counterexample:
  "adds [formBig] initial = scenarioBig
   \<and> runSimulation scenarioBig = Inr (scenarioBig\<lparr>processes := [bigDone]\<rparr>)
   \<and> burstTime bigDone = Num 1
   \<and> turnAroundTime bigDone = Some (Num 0)
   \<and> waitingTime bigDone = Some (Num 0)
   \<and> js_sub (Num 0) (Num 1) = Num (- 1)
   \<and> (0 :: int) \<noteq> 0 - 1"
  by (simp add: adds_formBig run_scenarioBig double_of_int_exact)
     (simp add: bigDone_def bigProcess_def proc_def)

text \<open>
  Claim C2, amended. Every process of the list that a simulation run returns carries
  the four metrics, with \<open>completionTime = startTime + burstTime\<close>,
  \<open>turnAroundTime = completionTime - arrivalTime\<close> and
  \<open>waitingTime = startTime - arrivalTime\<close> in the arithmetic of doubles. When the
  completion time, the turnaround time and the waiting time are safe integers
  (integers below \<open>2^53\<close> in magnitude), the arrival, burst and start times are
  integers, the equations hold in the integers, and
  \<open>waitingTime = turnAroundTime - burstTime\<close>.
\<close>

theorem run_metrics:
  assumes "runSimulation s = Inr s'"
  shows "\<forall>q \<in> set (processes s').
           \<exists>st ct ta wt.
             startTime q = Some st \<and> completionTime q = Some ct \<and>
             turnAroundTime q = Some ta \<and> waitingTime q = Some wt \<and>
             ct = js_add st (burstTime q) \<and>
             ta = js_sub ct (arrivalTime q) \<and>
             wt = js_sub st (arrivalTime q) \<and>
             (safe_integer ct \<and> safe_integer ta \<and> safe_integer wt \<longrightarrow>
                (\<exists>s c t w a b.
                   st = Num s \<and> ct = Num c \<and> ta = Num t \<and> wt = Num w \<and>
                   arrivalTime q = Num a \<and> burstTime q = Num b \<and>
                   c = s + b \<and> t = c - a \<and> w = t - b \<and> w = s - a))"
proof
  fix q
  assume "q \<in> set (processes s')"
  with assms have "q \<in> set (fcfs_walk (Num 0) (sortedProcesses (processes s)))"
    by (simp add: runSimulation_Inr simulateFCFS_def)
  from fcfs_walk_member [OF this] obtain x cur where
    q: "q = x\<lparr>startTime := Some (js_max cur (arrivalTime x)),
            completionTime := Some (js_add (js_max cur (arrivalTime x)) (burstTime x)),
            turnAroundTime :=
              Some (js_sub (js_add (js_max cur (arrivalTime x)) (burstTime x)) (arrivalTime x)),
            waitingTime := Some (js_sub (js_max cur (arrivalTime x)) (arrivalTime x))\<rparr>"
    by blast
  let ?st = "js_max cur (arrivalTime x)"
  from q have ab: "arrivalTime x = arrivalTime q" "burstTime x = burstTime q"
    by simp_all
  from q have fields:
    "startTime q = Some ?st"
    "completionTime q = Some (js_add ?st (burstTime q))"
    "turnAroundTime q = Some (js_sub (js_add ?st (burstTime q)) (arrivalTime q))"
    "waitingTime q = Some (js_sub ?st (arrivalTime q))"
    by simp_all
  have exact: "safe_integer (js_add ?st (burstTime q))
         \<and> safe_integer (js_sub (js_add ?st (burstTime q)) (arrivalTime q))
         \<and> safe_integer (js_sub ?st (arrivalTime q)) \<longrightarrow>
       (\<exists>s c t w a b.
           ?st = Num s \<and> js_add ?st (burstTime q) = Num c \<and>
           js_sub (js_add ?st (burstTime q)) (arrivalTime q) = Num t \<and>
           js_sub ?st (arrivalTime q) = Num w \<and>
           arrivalTime q = Num a \<and> burstTime q = Num b \<and>
           c = s + b \<and> t = c - a \<and> w = t - b \<and> w = s - a)"
    by (intro impI, elim conjE, rule metrics_exact)
  have refl3: "js_add ?st (burstTime q) = js_add ?st (burstTime q)"
    "js_sub (js_add ?st (burstTime q)) (arrivalTime q)
       = js_sub (js_add ?st (burstTime q)) (arrivalTime q)"
    "js_sub ?st (arrivalTime q) = js_sub ?st (arrivalTime q)"
    by (rule refl)+
  show "\<exists>st ct ta wt.
             startTime q = Some st \<and> completionTime q = Some ct \<and>
             turnAroundTime q = Some ta \<and> waitingTime q = Some wt \<and>
             ct = js_add st (burstTime q) \<and>
             ta = js_sub ct (arrivalTime q) \<and>
             wt = js_sub st (arrivalTime q) \<and>
             (safe_integer ct \<and> safe_integer ta \<and> safe_integer wt \<longrightarrow>
                (\<exists>s c t w a b.
                   st = Num s \<and> ct = Num c \<and> ta = Num t \<and> wt = Num w \<and>
                   arrivalTime q = Num a \<and> burstTime q = Num b \<and>
                   c = s + b \<and> t = c - a \<and> w = t - b \<and> w = s - a))"
    apply (rule exI [of _ "?st"])
    apply (rule exI [of _ "js_add ?st (burstTime q)"])
    apply (rule exI [of _ "js_sub (js_add ?st (burstTime q)) (arrivalTime q)"])
    apply (rule exI [of _ "js_sub ?st (arrivalTime q)"])
    apply (intro conjI fields refl3 exact)
    done
qed

text \<open>The amended claim at the second process of scenario 1.\<close>

theorem run_metrics_witness:
  "runSimulation scenario1
     = Inr (scenario1\<lparr>processes := fcfs_walk (Num 0) [P1, P2, P3]\<rparr>)
   \<and> completionTime (fcfs_walk (Num 0) [P1, P2, P3] ! 1) = Some (Num 8)
   \<and> turnAroundTime (fcfs_walk (Num 0) [P1, P2, P3] ! 1) = Some (Num 7)
   \<and> waitingTime (fcfs_walk (Num 0) [P1, P2, P3] ! 1) = Some (Num 4)
   \<and> safe_integer (Num 8) \<and> safe_integer (Num 7) \<and> safe_integer (Num 4)
   \<and> (\<exists>s a b.
        startTime (fcfs_walk (Num 0) [P1, P2, P3] ! 1) = Some (Num s) \<and>
        arrivalTime (fcfs_walk (Num 0) [P1, P2, P3] ! 1) = Num a \<and>
        burstTime (fcfs_walk (Num 0) [P1, P2, P3] ! 1) = Num b \<and>
        8 = s + b \<and> 7 = 8 - a \<and> 4 = 7 - b \<and> 4 = s - a)"
proof -
  let ?q = "fcfs_walk (Num 0) [P1, P2, P3] ! 1"
  have mem: "?q \<in> set (processes (scenario1\<lparr>processes := fcfs_walk (Num 0) [P1, P2, P3]\<rparr>))"
    by (simp add: Let_def)
  have vals: "completionTime ?q = Some (Num 8)" "turnAroundTime ?q = Some (Num 7)"
    "waitingTime ?q = Some (Num 4)"
    unfolding walk_scenario1 by simp_all
  have safe: "safe_integer (Num 8)" "safe_integer (Num 7)" "safe_integer (Num 4)"
    by simp_all
  from bspec [OF run_metrics [OF run_scenario1] mem]
  obtain st ct ta wt where
    m: "startTime ?q = Some st" "completionTime ?q = Some ct"
       "turnAroundTime ?q = Some ta" "waitingTime ?q = Some wt"
       "safe_integer ct \<and> safe_integer ta \<and> safe_integer wt \<longrightarrow>
                (\<exists>s c t w a b.
                   st = Num s \<and> ct = Num c \<and> ta = Num t \<and> wt = Num w \<and>
                   arrivalTime ?q = Num a \<and> burstTime ?q = Num b \<and>
                   c = s + b \<and> t = c - a \<and> w = t - b \<and> w = s - a)"
    by (elim exE conjE)
  from m(2,3,4) vals have eq: "ct = Num 8" "ta = Num 7" "wt = Num 4"
    by simp_all
  from m(5) safe obtain s c t w a b where
    e: "st = Num s" "Num 8 = Num c" "Num 7 = Num t" "Num 4 = Num w"
       "arrivalTime ?q = Num a" "burstTime ?q = Num b"
       "c = s + b" "t = c - a" "w = t - b" "w = s - a"
    unfolding eq by (elim impE exE conjE) (intro conjI)
  from e(2,3,4) have n: "c = 8" "t = 7" "w = 4" by simp_all
  from m(1) e(1,5,6) e(7,8,9,10) [unfolded n]
  have ex: "\<exists>s a b.
        startTime ?q = Some (Num s) \<and> arrivalTime ?q = Num a \<and> burstTime ?q = Num b \<and>
        8 = s + b \<and> 7 = 8 - a \<and> 4 = 7 - b \<and> 4 = s - a"
    by (intro exI [of _ s] exI [of _ a] exI [of _ b]) simp
  from run_scenario1 vals safe ex show ?thesis by blast
qed

subsection \<open>C3: no negative waiting time\<close>




subsection \<open>C4: process ids are unique\<close>

text \<open>
  Claim C4 says that an add whose id is in the registry fails with the alert for a
  duplicate id, and that no sequence of adds stores an id twice. With \<open>P1\<close> in the
  registry, the form with the id \<open>P1\<close> and no arrival time gets the alert for the
  required fields: that test comes first. And the test for a duplicate id reads the
  registry of the render of the handler, while the record is appended to the pending
  state: two adds from the render in which the registry is empty and the form holds
  \<open>P1\<close> store \<open>P1\<close> twice.
\<close>

theorem duplicate_add_counterexample:
  "np_id formP1blank \<in> set (map pid (processes onceP1))
   \<and> addProcess (onceP1\<lparr>newProcess := formP1blank\<rparr>) (onceP1\<lparr>newProcess := formP1blank\<rparr>)
       = Inl (Alert ''Please fill in all required fields'')
   \<and> addProcess renderP1 renderP1 = Inr onceP1
   \<and> addProcess renderP1 onceP1 = Inr twiceP1
   \<and> map pid (processes twiceP1) = [''P1'', ''P1'']
   \<and> \<not> distinct (map pid (processes twiceP1))"
proof -
  have a: "np_id formP1blank \<in> set (map pid (processes onceP1))"
    by (simp add: formP1blank_def onceP1_def P1_def proc_def)
  have b: "addProcess (onceP1\<lparr>newProcess := formP1blank\<rparr>) (onceP1\<lparr>newProcess := formP1blank\<rparr>)
       = Inl (Alert ''Please fill in all required fields'')"
    by (simp add: addProcess_form required_fields_def formP1blank_def)
  have c: "map pid (processes twiceP1) = [''P1'', ''P1'']"
    by (simp add: twiceP1_def P1_def proc_def)
  then have d: "\<not> distinct (map pid (processes twiceP1))"
    by simp
  from a b c d show ?thesis
    by (simp add: addProcess_renderP1_once addProcess_renderP1_twice)
qed

text \<open>
  Claim C4, amended. After every sequence of add operations, each made in the render
  of the current state, no two processes of the registry share an id. Such an add
  whose id is the id of a process of the registry fails and leaves the registry as
  it is: with the alert for a duplicate id when the required fields are filled in,
  with the alert for the required fields otherwise. Such an add with a fresh id and
  the required fields appends the record.
\<close>

theorem ids_unique:
  "distinct (map pid (processes (adds fs initial)))
   \<and> (distinct (map pid (processes s)) \<longrightarrow> distinct (map pid (processes (adds fs s))))
   \<and> (np_id f \<in> set (map pid (processes s)) \<longrightarrow>
        addProcess (s\<lparr>newProcess := f\<rparr>) (s\<lparr>newProcess := f\<rparr>)
          = Inl (Alert (if required_fields f then ''A process with this ID already exists''
                        else ''Please fill in all required fields''))
        \<and> processes (submit s f) = processes s)
   \<and> (np_id f \<notin> set (map pid (processes s)) \<and> required_fields f \<longrightarrow>
        addProcess (s\<lparr>newProcess := f\<rparr>) (s\<lparr>newProcess := f\<rparr>)
          = Inr (s\<lparr>processes := processes s @ [processToAdd f], newProcess := emptyForm\<rparr>)
        \<and> processes (submit s f) = processes s @ [processToAdd f])"
proof -
  have "distinct (map pid (processes initial))"
    by (simp add: initial_def)
  then have a: "distinct (map pid (processes (adds fs initial)))"
    by (rule distinct_adds)
  have b: "distinct (map pid (processes s)) \<longrightarrow> distinct (map pid (processes (adds fs s)))"
    by (simp add: distinct_adds)
  have c: "np_id f \<in> set (map pid (processes s)) \<longrightarrow>
        addProcess (s\<lparr>newProcess := f\<rparr>) (s\<lparr>newProcess := f\<rparr>)
          = Inl (Alert (if required_fields f then ''A process with this ID already exists''
                        else ''Please fill in all required fields''))
        \<and> processes (submit s f) = processes s"
    by (simp add: addProcess_form processes_submit)
  have d: "np_id f \<notin> set (map pid (processes s)) \<and> required_fields f \<longrightarrow>
        addProcess (s\<lparr>newProcess := f\<rparr>) (s\<lparr>newProcess := f\<rparr>)
          = Inr (s\<lparr>processes := processes s @ [processToAdd f], newProcess := emptyForm\<rparr>)
        \<and> processes (submit s f) = processes s @ [processToAdd f]"
    by (simp add: addProcess_form processes_submit)
  from a b c d show ?thesis by blast
qed

text \<open>The amended claim after the add of \<open>P1\<close>: a second \<open>P1\<close> is refused with one
  alert or the other, \<open>P2\<close> is appended.\<close>

theorem ids_unique_witness:
  "distinct (map pid (processes (adds [formP1] initial)))
   \<and> processes (adds [formP1] initial) = [P1]
   \<and> np_id formP1again \<in> set (map pid (processes (adds [formP1] initial)))
   \<and> required_fields formP1again
   \<and> addProcess ((adds [formP1] initial)\<lparr>newProcess := formP1again\<rparr>)
                ((adds [formP1] initial)\<lparr>newProcess := formP1again\<rparr>)
        = Inl (Alert ''A process with this ID already exists'')
   \<and> processes (submit (adds [formP1] initial) formP1again) = [P1]
   \<and> np_id formP1blank \<in> set (map pid (processes (adds [formP1] initial)))
   \<and> \<not> required_fields formP1blank
   \<and> addProcess ((adds [formP1] initial)\<lparr>newProcess := formP1blank\<rparr>)
                ((adds [formP1] initial)\<lparr>newProcess := formP1blank\<rparr>)
        = Inl (Alert ''Please fill in all required fields'')
   \<and> processes (submit (adds [formP1] initial) formP1blank) = [P1]
   \<and> np_id formP2 \<notin> set (map pid (processes (adds [formP1] initial)))
   \<and> required_fields formP2
   \<and> processes (submit (adds [formP1] initial) formP2) = [P1, P2]
   \<and> distinct (map pid (processes (adds [formP1again, formP2] (adds [formP1] initial))))"
proof -
  let ?s = "adds [formP1] initial"
  have dup: "np_id formP1again \<in> set (map pid (processes ?s))"
    by (simp add: processes_adds_P1) (simp add: formP1again_def P1_def proc_def)
  have req: "required_fields formP1again"
    by (simp add: required_fields_def formP1again_def)
  have dup': "np_id formP1blank \<in> set (map pid (processes ?s))"
    by (simp add: processes_adds_P1) (simp add: formP1blank_def P1_def proc_def)
  have nreq: "\<not> required_fields formP1blank"
    by (simp add: required_fields_def formP1blank_def)
  have fresh: "np_id formP2 \<notin> set (map pid (processes ?s))"
    by (simp add: processes_adds_P1) (simp add: formP2_def P1_def proc_def)
  have req2: "required_fields formP2"
    by (simp add: required_fields_def formP2_def)
  note t1 = ids_unique [of "[formP1]" ?s formP1again]
  note t2 = ids_unique [of "[formP1again, formP2]" ?s formP2]
  note t3 = ids_unique [of "[formP1]" ?s formP1blank]
  from t1 have a: "distinct (map pid (processes ?s))" by blast
  from t1 dup have
    "addProcess (?s\<lparr>newProcess := formP1again\<rparr>) (?s\<lparr>newProcess := formP1again\<rparr>)
       = Inl (Alert (if required_fields formP1again
                     then ''A process with this ID already exists''
                     else ''Please fill in all required fields''))"
    "processes (submit ?s formP1again) = processes ?s"
    by blast+
  with req have b:
    "addProcess (?s\<lparr>newProcess := formP1again\<rparr>) (?s\<lparr>newProcess := formP1again\<rparr>)
       = Inl (Alert ''A process with this ID already exists'')"
    "processes (submit ?s formP1again) = processes ?s"
    by simp_all
  from t3 dup' have
    "addProcess (?s\<lparr>newProcess := formP1blank\<rparr>) (?s\<lparr>newProcess := formP1blank\<rparr>)
       = Inl (Alert (if required_fields formP1blank
                     then ''A process with this ID already exists''
                     else ''Please fill in all required fields''))"
    "processes (submit ?s formP1blank) = processes ?s"
    by blast+
  with nreq have b':
    "addProcess (?s\<lparr>newProcess := formP1blank\<rparr>) (?s\<lparr>newProcess := formP1blank\<rparr>)
       = Inl (Alert ''Please fill in all required fields'')"
    "processes (submit ?s formP1blank) = processes ?s"
    by simp_all
  from t2 fresh req2 have c: "processes (submit ?s formP2) = processes ?s @ [processToAdd formP2]"
    by blast
  from t2 a have d: "distinct (map pid (processes (adds [formP1again, formP2] ?s)))"
    by blast
  from a dup req b dup' nreq b' fresh req2 c d show ?thesis
    by (simp add: processes_adds_P1 processToAdd_formP2)
qed

subsection \<open>C8: what the registry holds at run time\<close>

text \<open>
  Claim C8 says that every process of the registry has an arrival time of at least 0
  and a burst time above 0. \<^verbatim>\<open>addProcess\<close> checks no sign: the form with arrival
  time \<^verbatim>\<open>-5\<close> and burst time \<^verbatim>\<open>0\<close> is added.
\<close>

theorem negative_arrival_counterexample:
  "addProcess (initial\<lparr>newProcess := formNegative\<rparr>) (initial\<lparr>newProcess := formNegative\<rparr>)
     = Inr (initial\<lparr>processes := [proc ''P1'' (- 5) 0]\<rparr>)
   \<and> processes (adds [formNegative] initial) = [proc ''P1'' (- 5) 0]
   \<and> \<not> list_all valid_process (processes (adds [formNegative] initial))"
proof -
  have r: "required_fields formNegative"
    by (simp add: required_fields_def formNegative_def)
  have a: "addProcess (initial\<lparr>newProcess := formNegative\<rparr>)
                      (initial\<lparr>newProcess := formNegative\<rparr>)
     = Inr (initial\<lparr>processes := [proc ''P1'' (- 5) 0]\<rparr>)"
    by (simp add: addProcess_form r processToAdd_formNegative) (simp add: initial_def)
  have c: "\<not> list_all valid_process [proc ''P1'' (- 5) 0]"
    by (simp add: valid_process_def proc_def)
  from a c show ?thesis by (simp add: processes_adds_formNegative)
qed

text \<open>
  Claim C8, amended. After every sequence of add operations on the empty registry,
  every process of the registry comes from a submitted form whose id, arrival time
  and burst time are not empty, and its arrival time and burst time are
  \<^verbatim>\<open>parseInt\<close> of the texts of that form: it has an arrival time of at least 0 and
  a burst time above 0 exactly when the texts parse to such numbers.
\<close>

theorem registry_holds_parsed_texts:
  "\<forall>p \<in> set (processes (adds fs initial)).
     \<exists>f \<in> set fs.
       np_id f \<noteq> [] \<and> np_arrivalTime f \<noteq> [] \<and> np_burstTime f \<noteq> [] \<and>
       pid p = np_id f \<and>
       arrivalTime p = parseInt (np_arrivalTime f) \<and>
       burstTime p = parseInt (np_burstTime f) \<and>
       (valid_process p \<longleftrightarrow>
          js_le (Num 0) (parseInt (np_arrivalTime f)) \<and> js_lt (Num 0) (parseInt (np_burstTime f)))"
proof
  fix p
  assume "p \<in> set (processes (adds fs initial))"
  from adds_origin [OF this] obtain f where
    f: "f \<in> set fs" "required_fields f" "p = processToAdd f"
    by (auto simp: initial_def)
  from f(2,3) have
    "np_id f \<noteq> [] \<and> np_arrivalTime f \<noteq> [] \<and> np_burstTime f \<noteq> [] \<and>
       pid p = np_id f \<and>
       arrivalTime p = parseInt (np_arrivalTime f) \<and>
       burstTime p = parseInt (np_burstTime f) \<and>
       (valid_process p \<longleftrightarrow>
          js_le (Num 0) (parseInt (np_arrivalTime f)) \<and> js_lt (Num 0) (parseInt (np_burstTime f)))"
    by (simp add: required_fields_def processToAdd_def valid_process_def)
  with f(1) show "\<exists>f \<in> set fs.
       np_id f \<noteq> [] \<and> np_arrivalTime f \<noteq> [] \<and> np_burstTime f \<noteq> [] \<and>
       pid p = np_id f \<and>
       arrivalTime p = parseInt (np_arrivalTime f) \<and>
       burstTime p = parseInt (np_burstTime f) \<and>
       (valid_process p \<longleftrightarrow>
          js_le (Num 0) (parseInt (np_arrivalTime f)) \<and> js_lt (Num 0) (parseInt (np_burstTime f)))"
    by blast
qed

text \<open>The amended claim at the form with arrival time \<^verbatim>\<open>-5\<close> and burst time \<^verbatim>\<open>0\<close>.\<close>

theorem registry_holds_parsed_texts_witness:
  "proc ''P1'' (- 5) 0 \<in> set (processes (adds [formNegative] initial))
   \<and> formNegative \<in> set [formNegative]
   \<and> np_arrivalTime formNegative \<noteq> [] \<and> np_burstTime formNegative \<noteq> []
   \<and> arrivalTime (proc ''P1'' (- 5) 0) = parseInt (np_arrivalTime formNegative)
   \<and> burstTime (proc ''P1'' (- 5) 0) = parseInt (np_burstTime formNegative)
   \<and> parseInt (np_arrivalTime formNegative) = Num (- 5)
   \<and> parseInt (np_burstTime formNegative) = Num 0"
proof -
  have mem: "proc ''P1'' (- 5) 0 \<in> set (processes (adds [formNegative] initial))"
    by (simp add: processes_adds_formNegative)
  from registry_holds_parsed_texts [of "[formNegative]"] mem
  have t: "arrivalTime (proc ''P1'' (- 5) 0) = parseInt (np_arrivalTime formNegative)"
    "burstTime (proc ''P1'' (- 5) 0) = parseInt (np_burstTime formNegative)"
    "np_arrivalTime formNegative \<noteq> []" "np_burstTime formNegative \<noteq> []"
    by auto
  then have v: "parseInt (np_arrivalTime formNegative) = Num (- 5)"
    "parseInt (np_burstTime formNegative) = Num 0"
    by (simp_all add: proc_def)
  from mem t v show ?thesis by simp
qed

subsection \<open>C5: the algorithms that the run operation implements\<close>

text \<open>
  Claim C5 says that the run operation implements the four algorithms and that Round
  Robin on \<open>P1\<close> and \<open>P2\<close> gives the completion times 7 and 8. With Round Robin
  selected the run alerts and sets nothing: no process has a completion time.
\<close>

theorem round_robin_counterexample:
  "algorithm scenario3 = RR
   \<and> processes scenario3 = [P1, P2]
   \<and> runSimulation scenario3 = Inl (Alert ''Selected algorithm not implemented yet'')
   \<and> map completionTime (processes (after runSimulation scenario3)) = [None, None]"
proof -
  have "algorithm scenario3 \<noteq> FCFS"
    by (simp add: scenario3_def selectors_differ)
  from runSimulation_other [OF this] show ?thesis
    by (simp add: scenario3_def P1_def P2_def proc_def)
qed

text \<open>
  Claim C5, amended. Of the four named algorithms the run operation implements FCFS
  only: with FCFS selected it replaces the registry with the list of
  \<^verbatim>\<open>simulateFCFS\<close>; with Round Robin, SJF or Priority selected it alerts that the
  algorithm is not implemented and leaves the state as it is.
\<close>

theorem only_fcfs_implemented:
  "(algorithm s = FCFS \<longrightarrow>
      runSimulation s = Inr (s\<lparr>processes := simulateFCFS (processes s)\<rparr>))
   \<and> (algorithm s = RR \<or> algorithm s = SJF \<or> algorithm s = PRIORITY \<longrightarrow>
        runSimulation s = Inl (Alert ''Selected algorithm not implemented yet'')
        \<and> after runSimulation s = s)"
proof -
  have "algorithm s \<noteq> FCFS"
    if "algorithm s = RR \<or> algorithm s = SJF \<or> algorithm s = PRIORITY"
    using that selectors_differ by auto
  then show ?thesis
    using runSimulation_other [of s] runSimulation_FCFS [of s] by blast
qed

text \<open>The amended claim at scenario 1 (FCFS) and at scenario 3 (Round Robin).\<close>

theorem only_fcfs_implemented_witness:
  "algorithm scenario1 = FCFS
   \<and> runSimulation scenario1 = Inr (scenario1\<lparr>processes := simulateFCFS (processes scenario1)\<rparr>)
   \<and> map completionTime (simulateFCFS (processes scenario1))
       = [Some (Num 5), Some (Num 8), Some (Num 16)]
   \<and> algorithm scenario3 = RR
   \<and> runSimulation scenario3 = Inl (Alert ''Selected algorithm not implemented yet'')
   \<and> after runSimulation scenario3 = scenario3"
proof -
  have a: "algorithm scenario1 = FCFS" by (simp add: scenario1_def)
  have b: "algorithm scenario3 = RR" by (simp add: scenario3_def)
  have c: "map completionTime (simulateFCFS (processes scenario1))
       = [Some (Num 5), Some (Num 8), Some (Num 16)]"
    by (simp add: scenario1_def simulateFCFS_scenario1)
  from only_fcfs_implemented [of scenario1] a
  have d: "runSimulation scenario1 = Inr (scenario1\<lparr>processes := simulateFCFS (processes scenario1)\<rparr>)"
    by blast
  from only_fcfs_implemented [of scenario3] b
  have e: "runSimulation scenario3 = Inl (Alert ''Selected algorithm not implemented yet'')"
    "after runSimulation scenario3 = scenario3"
    by blast+
  from a b c d e show ?thesis by blast
qed

subsection \<open>C6: a selector that is none of the four\<close>

text \<open>
  Claim C6. For a selector value that is none of the four named algorithms the run
  fails: it alerts (it is not silent), returns no result, and the registry is
  unchanged.
\<close>

theorem unsupported_selector_alerts:
  assumes "algorithm s \<notin> {FCFS, RR, SJF, PRIORITY}"
  shows "runSimulation s = Inl (Alert ''Selected algorithm not implemented yet'')
       \<and> after runSimulation s = s
       \<and> processes (after runSimulation s) = processes s"
proof -
  from assms have "algorithm s \<noteq> FCFS" by simp
  from runSimulation_other [OF this] show ?thesis by simp
qed

text \<open>The claim at the selector value \<^verbatim>\<open>Lottery\<close>.\<close>

theorem unsupported_selector_alerts_witness:
  "algorithm unknownSelector \<notin> {FCFS, RR, SJF, PRIORITY}
   \<and> runSimulation unknownSelector = Inl (Alert ''Selected algorithm not implemented yet'')
   \<and> processes (after runSimulation unknownSelector) = [P1, P2]"
proof -
  have h: "algorithm unknownSelector \<notin> {FCFS, RR, SJF, PRIORITY}"
    by (simp add: unknownSelector_def FCFS_def RR_def SJF_def PRIORITY_def)
  have p: "processes unknownSelector = [P1, P2]"
    by (simp add: unknownSelector_def)
  from unsupported_selector_alerts [OF h] h p show ?thesis by simp
qed

subsection \<open>C7: a run on the empty registry\<close>

text \<open>
  Claim C7 says that a run on the empty registry fails. In the initial state (empty
  registry, FCFS selected) \<^verbatim>\<open>runSimulation\<close> succeeds.
\<close>

theorem empty_run_counterexample:
  "processes initial = [] \<and> algorithm initial = FCFS \<and> runSimulation initial = Inr initial"
  by (simp add: runSimulation_def initial_def simulateFCFS_Nil)

text \<open>
  Claim C7, amended. While the registry is empty the Run button is disabled.
  \<^verbatim>\<open>runSimulation\<close> itself has no check for the empty list: with FCFS selected it
  succeeds and the state is as before, with another selector it alerts that the
  algorithm is not implemented; the registry is empty afterwards in both cases.
\<close>

theorem empty_run:
  assumes "processes s = []"
  shows "runDisabled s
       \<and> (algorithm s = FCFS \<longrightarrow> runSimulation s = Inr s)
       \<and> (algorithm s \<noteq> FCFS \<longrightarrow>
            runSimulation s = Inl (Alert ''Selected algorithm not implemented yet''))
       \<and> processes (after runSimulation s) = []"
proof -
  have a: "runDisabled s"
    using assms by (simp add: runDisabled_def)
  have "s\<lparr>processes := []\<rparr> = s"
    using assms by (cases s) simp
  then have b: "algorithm s = FCFS \<longrightarrow> runSimulation s = Inr s"
    using assms by (simp add: runSimulation_def simulateFCFS_Nil)
  have c: "algorithm s \<noteq> FCFS \<longrightarrow>
            runSimulation s = Inl (Alert ''Selected algorithm not implemented yet'')"
    by (simp add: runSimulation_def)
  have d: "processes (after runSimulation s) = []"
    using assms by (simp add: after_def runSimulation_def simulateFCFS_Nil)
  from a b c d show ?thesis by blast
qed

text \<open>The amended claim at the initial state and at the empty registry with Round Robin.\<close>

theorem empty_run_witness:
  "processes initial = [] \<and> runDisabled initial
   \<and> algorithm initial = FCFS \<and> runSimulation initial = Inr initial
   \<and> processes emptyRR = [] \<and> algorithm emptyRR \<noteq> FCFS
   \<and> runSimulation emptyRR = Inl (Alert ''Selected algorithm not implemented yet'')
   \<and> processes (after runSimulation emptyRR) = []"
proof -
  have a: "processes initial = []" "algorithm initial = FCFS"
    by (simp_all add: initial_def)
  have b: "processes emptyRR = []" "algorithm emptyRR \<noteq> FCFS"
    by (simp_all add: emptyRR_def selectors_differ)
  from empty_run [OF a(1)] a(2)
  have c: "runDisabled initial" "runSimulation initial = Inr initial" by blast+
  from empty_run [OF b(1)] b(2)
  have d: "runSimulation emptyRR = Inl (Alert ''Selected algorithm not implemented yet'')"
    "processes (after runSimulation emptyRR) = []" by blast+
  from a b c d show ?thesis by blast
qed

subsection \<open>C9: a run keeps the scheduling inputs\<close>

text \<open>
  Claim C9. The output of a run holds the processes of the input, with their id,
  arrival time, burst time, priority and state as they were: each output process is
  the process at the same place of the sorted input with the four metrics set, and
  nothing else changed. On the store, every object that existed before the run is
  as it was: the run appends new objects and returns references to them only, and
  the new objects are the processes that \<^verbatim>\<open>simulateFCFS\<close> computes on values.
\<close>

theorem run_keeps_inputs:
  "map scheduling_input (simulateFCFS ps) = map scheduling_input (sortedProcesses ps)
   \<and> mset (map scheduling_input (simulateFCFS ps)) = mset (map scheduling_input ps)
   \<and> (\<forall>i. i < length ps \<longrightarrow>
        (\<exists>st ct ta wt. simulateFCFS ps ! i =
           (sortedProcesses ps ! i)\<lparr>startTime := st, completionTime := ct,
                                    turnAroundTime := ta, waitingTime := wt\<rparr>))
   \<and> (allocated h arr \<longrightarrow>
        take (length h) (fst (simulateFCFS_store h arr)) = h
        \<and> list_all (\<lambda>r. length h \<le> r) (snd (simulateFCFS_store h arr))
        \<and> map ((!) (fst (simulateFCFS_store h arr))) (snd (simulateFCFS_store h arr))
            = simulateFCFS (map ((!) h) arr))"
proof -
  have a: "map scheduling_input (simulateFCFS ps) = map scheduling_input (sortedProcesses ps)"
    by (rule map_input_simulateFCFS)
  have "mset (map scheduling_input (sortedProcesses ps)) = mset (map scheduling_input ps)"
    by (simp add: mset_sortedProcesses)
  with a have b: "mset (map scheduling_input (simulateFCFS ps)) = mset (map scheduling_input ps)"
    by simp
  have c: "\<exists>st ct ta wt. simulateFCFS ps ! i =
           (sortedProcesses ps ! i)\<lparr>startTime := st, completionTime := ct,
                                    turnAroundTime := ta, waitingTime := wt\<rparr>"
    if "i < length ps" for i
  proof -
    from that have "i < length (sortedProcesses ps)"
      by (simp add: length_sortedProcesses)
    then show ?thesis unfolding simulateFCFS_def by (rule fcfs_walk_frame)
  qed
  have d: "take (length h) (fst (simulateFCFS_store h arr)) = h
        \<and> list_all (\<lambda>r. length h \<le> r) (snd (simulateFCFS_store h arr))
        \<and> map ((!) (fst (simulateFCFS_store h arr))) (snd (simulateFCFS_store h arr))
            = simulateFCFS (map ((!) h) arr)"
    if al: "allocated h arr"
  proof -
    have len: "length (simulateFCFS (map ((!) h) arr)) = length arr"
      by (simp add: simulateFCFS_def length_fcfs_walk length_sortedProcesses)
    have "map ((!) (h @ simulateFCFS (map ((!) h) arr)))
            [length h ..< length h + length (simulateFCFS (map ((!) h) arr))]
          = simulateFCFS (map ((!) h) arr)"
      by (rule map_nth_fresh)
    then show ?thesis
      by (simp add: simulateFCFS_store_appends [OF al] len list_all_iff)
  qed
  from a b c d show ?thesis by blast
qed

text \<open>The claim at \<open>P3, P2, P1\<close>, stored at the references 0, 1 and 2.\<close>

theorem run_keeps_inputs_witness:
  "Suc 0 < length [P3, P2, P1]
   \<and> (\<exists>st ct ta wt. simulateFCFS [P3, P2, P1] ! Suc 0 =
        P2\<lparr>startTime := st, completionTime := ct, turnAroundTime := ta, waitingTime := wt\<rparr>)
   \<and> mset (map scheduling_input (simulateFCFS [P3, P2, P1]))
       = mset (map scheduling_input [P3, P2, P1])
   \<and> allocated [P3, P2, P1] [0, 1, 2]
   \<and> take (length [P3, P2, P1]) (fst (simulateFCFS_store [P3, P2, P1] [0, 1, 2]))
       = [P3, P2, P1]
   \<and> snd (simulateFCFS_store [P3, P2, P1] [0, 1, 2]) = [3, 4, 5]
   \<and> map ((!) (fst (simulateFCFS_store [P3, P2, P1] [0, 1, 2]))) [3, 4, 5]
       = simulateFCFS [P3, P2, P1]"
proof -
  have al: "allocated [P3, P2, P1] [0, 1, 2]"
    by (simp add: allocated_def)
  have i: "Suc 0 < length [P3, P2, P1]" by simp
  have s1: "sortedProcesses [P3, P2, P1] ! Suc 0 = P2"
    by (simp add: sorted_reversed)
  have refs: "snd (simulateFCFS_store [P3, P2, P1] [0, 1, 2]) = [3, 4, 5]"
  proof -
    have "snd (simulateFCFS_store [P3, P2, P1] [0, 1, 2])
            = [length [P3, P2, P1] ..< length [P3, P2, P1] + length [0, 1, 2 :: nat]]"
      by (simp only: simulateFCFS_store_appends [OF al] snd_conv)
    also have "\<dots> = [3, 4, 5]"
      by (simp add: upt_rec)
    finally show ?thesis .
  qed
  have m: "map ((!) [P3, P2, P1]) [0, 1, 2] = [P3, P2, P1]"
    by simp
  note t = run_keeps_inputs [of "[P3, P2, P1]" "[P3, P2, P1]" "[0, 1, 2]"]
  from t i have a: "\<exists>st ct ta wt. simulateFCFS [P3, P2, P1] ! Suc 0 =
        (sortedProcesses [P3, P2, P1] ! Suc 0)\<lparr>startTime := st, completionTime := ct,
                                    turnAroundTime := ta, waitingTime := wt\<rparr>"
    by blast
  from t have b: "mset (map scheduling_input (simulateFCFS [P3, P2, P1]))
       = mset (map scheduling_input [P3, P2, P1])"
    by blast
  from t al have c:
    "take (length [P3, P2, P1]) (fst (simulateFCFS_store [P3, P2, P1] [0, 1, 2])) = [P3, P2, P1]"
    "map ((!) (fst (simulateFCFS_store [P3, P2, P1] [0, 1, 2])))
         (snd (simulateFCFS_store [P3, P2, P1] [0, 1, 2]))
       = simulateFCFS (map ((!) [P3, P2, P1]) [0, 1, 2])"
    by blast+
  note c1 = c(1)
  from c(2) have c2: "map ((!) (fst (simulateFCFS_store [P3, P2, P1] [0, 1, 2]))) [3, 4, 5]
       = simulateFCFS [P3, P2, P1]"
    by (simp only: refs m)
  from a have a': "\<exists>st ct ta wt. simulateFCFS [P3, P2, P1] ! Suc 0 =
        P2\<lparr>startTime := st, completionTime := ct, turnAroundTime := ta, waitingTime := wt\<rparr>"
    by (simp only: s1)
  from i a' b al c1 refs c2 show ?thesis by blast
qed


subsection \<open>C10: the registry after an FCFS run\<close>



end
